theory Spec2Isabelle
  imports Complex_Main "HOL-Library.Sublist"
begin

section \<open>JavaScript values used by the smart-cut core\<close>

subsection \<open>Numbers\<close>

text \<open>
  A JavaScript number is an IEEE-754 double. The model keeps the special values apart and
  holds every other value as the rational it denotes; \<open>Fin 0\<close> is \<open>+0\<close> and \<open>NegZero\<close>
  is \<open>-0\<close>. Arithmetic (below) rounds to the nearest double, so a \<open>Fin r\<close> that the
  program computes always carries a representable \<open>r\<close>.
\<close>

datatype number = NaN | PosInf | NegInf | NegZero | Fin rat

text \<open>
  Rounding to nearest, ties to even, of a non-negative rational onto the doubles. The unit
  in the last place is \<open>2 ^ k\<close> or \<open>1 / 2 ^ k\<close>, found by halving or doubling the
  value until its significand lies in \<open>[2 ^ 52, 2 ^ 53)\<close>; doubling stops at
  \<open>k = 1074\<close>, the spacing of the subnormal numbers.
\<close>

definition round_half_even :: "rat \<Rightarrow> int" where
  "round_half_even x =
     (let f = \<lfloor>x\<rfloor>; d = x - of_int f
      in if d < 1 / 2 then f
         else if 1 / 2 < d then f + 1
         else if even f then f else f + 1)"

function scale_down :: "rat \<Rightarrow> nat" where
  "scale_down a = (if a < 2 ^ 53 then 0 else Suc (scale_down (a / 2)))"
  by pat_completeness auto
termination
proof (relation "measure (\<lambda>a. nat \<lceil>a\<rceil>)")
  show "wf (measure (\<lambda>a::rat. nat \<lceil>a\<rceil>))"
    by simp
next
  fix a :: rat
  assume "\<not> a < 2 ^ 53"
  then have big: "2 \<le> a"
    by simp
  have "a / 2 + 1 \<le> a"
    using big by simp
  then have "\<lceil>a / 2\<rceil> + 1 \<le> \<lceil>a\<rceil>"
    by (metis ceiling_add_one ceiling_mono)
  moreover have "0 < \<lceil>a\<rceil>"
    using big by simp
  ultimately show "(a / 2, a) \<in> measure (\<lambda>a. nat \<lceil>a\<rceil>)"
    by simp
qed

function scale_up :: "rat \<Rightarrow> nat \<Rightarrow> nat" where
  "scale_up a k = (if 2 ^ 52 \<le> a \<or> 1074 \<le> k then k else scale_up (2 * a) (Suc k))"
  by pat_completeness auto
termination
  by (relation "measure (\<lambda>(a, k). 1074 - k)") auto

declare scale_down.simps [simp del] scale_up.simps [simp del]

definition round_mag :: "rat \<Rightarrow> rat" where
  "round_mag a =
     (if a = 0 then 0
      else if 2 ^ 53 \<le> a
        then (let k = scale_down a in of_int (round_half_even (a / 2 ^ k)) * 2 ^ k)
        else (let k = scale_up a 0 in of_int (round_half_even (a * 2 ^ k)) / 2 ^ k))"

text \<open>
  The double of sign \<open>neg\<close> nearest to the magnitude \<open>a\<close>: a rounded magnitude of
  \<open>2 ^ 1024\<close> or more overflows to an infinity, and a zero keeps its sign.
\<close>

definition fround :: "bool \<Rightarrow> rat \<Rightarrow> number" where
  "fround neg a =
     (let r = round_mag a
      in if 2 ^ 1024 \<le> r then (if neg then NegInf else PosInf)
         else if neg then (if r = 0 then NegZero else Fin (- r))
         else Fin r)"

fun signbit :: "number \<Rightarrow> bool" where
  "signbit NaN = False"
| "signbit PosInf = False"
| "signbit NegInf = True"
| "signbit NegZero = True"
| "signbit (Fin r) = (r < 0)"

text \<open>The magnitude of a finite number; \<open>None\<close> for an infinity (and for \<open>NaN\<close>).\<close>

fun magnitude :: "number \<Rightarrow> rat option" where
  "magnitude NegZero = Some 0"
| "magnitude (Fin r) = Some \<bar>r\<bar>"
| "magnitude _ = None"

definition infinity :: "bool \<Rightarrow> number" where
  "infinity neg = (if neg then NegInf else PosInf)"

text \<open>The operators \<open>*\<close> and \<open>/\<close> on numbers.\<close>

definition fmul :: "number \<Rightarrow> number \<Rightarrow> number" where
  "fmul x y =
     (if x = NaN \<or> y = NaN then NaN
      else let neg = (signbit x \<noteq> signbit y)
           in case (magnitude x, magnitude y) of
                (Some a, Some b) \<Rightarrow> fround neg (a * b)
              | (None, Some b) \<Rightarrow> if b = 0 then NaN else infinity neg
              | (Some a, None) \<Rightarrow> if a = 0 then NaN else infinity neg
              | (None, None) \<Rightarrow> infinity neg)"

definition fdiv :: "number \<Rightarrow> number \<Rightarrow> number" where
  "fdiv x y =
     (if x = NaN \<or> y = NaN then NaN
      else let neg = (signbit x \<noteq> signbit y)
           in case (magnitude x, magnitude y) of
                (Some a, Some b) \<Rightarrow>
                  if b = 0 then (if a = 0 then NaN else infinity neg)
                  else fround neg (a / b)
              | (None, Some b) \<Rightarrow> infinity neg
              | (Some a, None) \<Rightarrow> fround neg 0
              | (None, None) \<Rightarrow> NaN)"

text \<open>\<open>Math.floor\<close>: the floor of a double is a double, so nothing is rounded.\<close>

fun Math_floor :: "number \<Rightarrow> number" where
  "Math_floor (Fin r) = Fin (of_int \<lfloor>r\<rfloor>)"
| "Math_floor x = x"

definition Number_isNaN :: "number \<Rightarrow> bool" where
  "Number_isNaN x = (x = NaN)"

text \<open>
  The comparisons \<open>===\<close> and \<open>>=\<close> on numbers: false as soon as one side is
  \<open>NaN\<close>, and the two zeros are equal.
\<close>

fun js_ge :: "number \<Rightarrow> number \<Rightarrow> bool" where
  "js_ge NaN _ = False"
| "js_ge _ NaN = False"
| "js_ge PosInf _ = True"
| "js_ge _ NegInf = True"
| "js_ge NegInf _ = False"
| "js_ge _ PosInf = False"
| "js_ge NegZero NegZero = True"
| "js_ge NegZero (Fin s) = (s \<le> 0)"
| "js_ge (Fin r) NegZero = (0 \<le> r)"
| "js_ge (Fin r) (Fin s) = (s \<le> r)"

definition js_eq :: "number \<Rightarrow> number \<Rightarrow> bool" where
  "js_eq x y = (js_ge x y \<and> js_ge y x)"

text \<open>The literal \<open>1.2\<close> is the double nearest to \<open>6 / 5\<close>.\<close>

definition lit_1_2 :: number where
  "lit_1_2 = fround False (6 / 5)"

subsection \<open>Strings\<close>

text \<open>
  Strings are lists of 8-bit characters: the identifiers and numeric strings that the probe
  delivers are ASCII. \<open>String_includes\<close> is \<open>String.prototype.includes\<close>: the argument occurs
  as a contiguous substring.
\<close>

fun String_includes :: "string \<Rightarrow> string \<Rightarrow> bool" where
  "String_includes [] sub = (sub = [])"
| "String_includes (c # s) sub = (prefix sub (c # s) \<or> String_includes s sub)"

text \<open>Decimal digits of a natural number, most significant first.\<close>

fun decimal :: "nat \<Rightarrow> string" where
  "decimal n = (if n < 10 then [''0123456789'' ! n]
                else decimal (n div 10) @ [''0123456789'' ! (n mod 10)])"

declare decimal.simps [simp del]

text \<open>
  \<open>Number::toString\<close>, which both \<open>String(x)\<close> and a template literal apply to a number.
  The special values and the integers of magnitude up to \<open>2 ^ 53\<close> (which print as their
  exact decimal digits) are written out; for every other value (a fraction, or a magnitude
  above \<open>2 ^ 53\<close>) the language prints the shortest digit string that reads back as the
  same double, and that digit generation is the parameter \<open>shortest\<close>.
\<close>

definition NumberToString :: "(rat \<Rightarrow> string) \<Rightarrow> number \<Rightarrow> string" where
  "NumberToString shortest x =
     (case x of
        NaN \<Rightarrow> ''NaN''
      | PosInf \<Rightarrow> ''Infinity''
      | NegInf \<Rightarrow> ''-Infinity''
      | NegZero \<Rightarrow> ''0''
      | Fin r \<Rightarrow>
          if of_int \<lfloor>r\<rfloor> = r \<and> \<bar>r\<bar> \<le> 2 ^ 53
          then (if r < 0 then ''-'' else '''') @ decimal (nat \<lfloor>\<bar>r\<bar>\<rfloor>)
          else shortest r)"

text \<open>
  \<open>parseInt(s, 10)\<close>: leading white space is skipped, one sign is read, then the longest
  run of decimal digits; with no digit the result is \<open>NaN\<close>. An absent argument
  (\<open>undefined\<close>) is first converted to the string \<open>undefined\<close>, which has no digit.
  A negative sign in front of the digits of zero gives \<open>-0\<close>. The value of the digits
  is rounded to the nearest double (an implementation may also drop digits after the
  twentieth; the model does not).
\<close>

definition StrWhiteSpaceChar :: "char \<Rightarrow> bool" where
  "StrWhiteSpaceChar c = (of_char c \<in> {9, 10, 11, 12, 13, 32, 160 :: nat})"

definition is_digit :: "char \<Rightarrow> bool" where
  "is_digit c = (48 \<le> (of_char c :: nat) \<and> (of_char c :: nat) \<le> 57)"

definition digits_value :: "string \<Rightarrow> nat" where
  "digits_value ds = foldl (\<lambda>acc c. 10 * acc + (of_char c - 48)) 0 ds"

definition parseInt :: "string option \<Rightarrow> number" where
  "parseInt input =
     (case input of
        None \<Rightarrow> NaN
      | Some s \<Rightarrow>
          let s1 = dropWhile StrWhiteSpaceChar s;
              neg = (case s1 of c # _ \<Rightarrow> c = CHR ''-'' | [] \<Rightarrow> False);
              s2 = (case s1 of
                      c # rest \<Rightarrow> if c = CHR ''+'' \<or> c = CHR ''-'' then rest else s1
                    | [] \<Rightarrow> s1);
              ds = takeWhile is_digit s2
          in if ds = [] then NaN else fround neg (of_nat (digits_value ds)))"

subsection \<open>Property lookup on an object literal\<close>

text \<open>
  An object literal inherits from \<open>Object.prototype\<close>, and an index expression
  \<open>obj[key]\<close> finds inherited properties as well as own ones. These are the property
  names of \<open>Object.prototype\<close>; each holds a function, except \<open>__proto__\<close>, which
  yields the prototype object itself. None of them is \<open>null\<close> or \<open>undefined\<close>.
\<close>

definition Object_prototype_properties :: "string list" where
  "Object_prototype_properties =
     [''constructor'', ''__defineGetter__'', ''__defineSetter__'', ''hasOwnProperty'',
      ''__lookupGetter__'', ''__lookupSetter__'', ''isPrototypeOf'',
      ''propertyIsEnumerable'', ''toString'', ''valueOf'', ''__proto__'',
      ''toLocaleString'']"

text \<open>
  What a lookup can yield here: a string, or the member of \<open>Object.prototype\<close> of the
  given name.
\<close>

datatype property_value = Str string | Inherited string

section \<open>EncoderQualityMapper\<close>

definition getOptimalCRF :: "string \<Rightarrow> number option" where
  "getOptimalCRF encoder =
     (if encoder = ''libx264'' then Some (Fin 23)
      else if encoder = ''libx265'' then Some (Fin 28)
      else if encoder = ''libsvtav1'' then Some (Fin 35)
      else if encoder = ''h264_nvenc'' then Some (Fin 23)
      else if encoder = ''hevc_nvenc'' then Some (Fin 28)
      else if encoder = ''av1_nvenc'' then Some (Fin 30)
      else if encoder = ''h264_videotoolbox'' then None
      else if encoder = ''hevc_videotoolbox'' then None
      else if encoder = ''h264_qsv'' then Some (Fin 23)
      else if encoder = ''hevc_qsv'' then Some (Fin 28)
      else if encoder = ''av1_qsv'' then Some (Fin 30)
      else if String_includes encoder ''vaapi'' then None
      else if encoder = ''h264_amf'' then Some (Fin 23)
      else if encoder = ''hevc_amf'' then Some (Fin 28)
      else if encoder = ''av1_amf'' then Some (Fin 30)
      else None)"

definition getOptimalPreset :: "string \<Rightarrow> string option" where
  "getOptimalPreset encoder =
     (if encoder = ''libx264'' then Some ''medium''
      else if encoder = ''libx265'' then Some ''medium''
      else if encoder = ''libsvtav1'' then Some ''6''
      else if String_includes encoder ''nvenc'' then Some ''p4''
      else if String_includes encoder ''videotoolbox'' then None
      else if String_includes encoder ''qsv'' then Some ''medium''
      else if String_includes encoder ''vaapi'' then None
      else if String_includes encoder ''amf'' then Some ''balanced''
      else None)"

definition supportsCRF :: "string \<Rightarrow> bool" where
  "supportsCRF encoder = (getOptimalCRF encoder \<noteq> None)"

text \<open>
  \<open>customCRF ?? getOptimalCRF(encoder)\<close>: an absent override (\<open>None\<close>) falls back to the
  default; any number, \<open>NaN\<close> included, is kept. The three \<open>if\<close> blocks push onto
  \<open>args\<close> in this order.
\<close>

definition getEncoderQualityArgs ::
  "(rat \<Rightarrow> string) \<Rightarrow> string \<Rightarrow> number \<Rightarrow> number option \<Rightarrow> string option \<Rightarrow> string list" where
  "getEncoderQualityArgs shortest encoder outputIndex customCRF customPreset =
     (let str = NumberToString shortest;
          crf = (case customCRF of Some c \<Rightarrow> Some c | None \<Rightarrow> getOptimalCRF encoder);
          preset = (case customPreset of Some p \<Rightarrow> Some p | None \<Rightarrow> getOptimalPreset encoder);
          args1 = (case crf of
                     None \<Rightarrow> []
                   | Some c \<Rightarrow>
                       if String_includes encoder ''nvenc'' then [''-cq:'' @ str outputIndex, str c]
                       else if String_includes encoder ''qsv''
                         then [''-global_quality:'' @ str outputIndex, str c]
                       else if String_includes encoder ''amf''
                         then [''-qp_i:'' @ str outputIndex, str c,
                               ''-qp_p:'' @ str outputIndex, str c]
                       else [''-crf:'' @ str outputIndex, str c]);
          args2 = (case preset of
                     None \<Rightarrow> args1
                   | Some p \<Rightarrow> args1 @ [''-preset:'' @ str outputIndex, p]);
          args3 = (if String_includes encoder ''videotoolbox''
                   then args2 @ [''-q:'' @ str outputIndex, ''65'']
                   else args2)
      in args3)"

section \<open>Errors and external collaborators\<close>

text \<open>
  A failed call is a value: \<open>Error\<close> is a plain \<open>new Error(message)\<close>,
  \<open>UserFacingError\<close> the application's user-facing kind, and \<open>Rejected\<close> carries
  whatever an awaited external promise (the keyframe query, the file stat) rejected with,
  which propagates unchanged through \<open>await\<close>.
\<close>

datatype 'x error = Error string | UserFacingError string | Rejected 'x

record FFprobeStream =
  index :: nat
  codec_type :: string
  codec_name :: "string option"
  bit_rate :: "string option"
  time_base :: "string option"
  disposition :: "(string \<times> number) list option"

record Frame =
  time :: number

record Stats =
  stats_size :: nat

record CutDecision =
  losslessCutFrom :: number
  segmentNeedsSmartCut :: bool

section \<open>CutPointResolver\<close>

text \<open>
  \<open>readKeyframesAroundTime\<close>, \<open>findKeyframeAtExactTime\<close> and \<open>findNextKeyframe\<close>
  come from the module \<open>./ffmpeg\<close> and \<open>i18n.t\<close> from the translation library; they are
  parameters. The first component of the result lists the windows that were queried, in
  order. The console output is left out: it does not influence the result.
\<close>

definition needsSmartCut ::
  "(string \<Rightarrow> nat \<Rightarrow> number \<Rightarrow> number \<Rightarrow> 'x + Frame list) \<Rightarrow>
   (Frame list \<Rightarrow> number \<Rightarrow> Frame option) \<Rightarrow>
   (Frame list \<Rightarrow> number \<Rightarrow> Frame option) \<Rightarrow>
   (string \<Rightarrow> string) \<Rightarrow>
   string \<Rightarrow> number \<Rightarrow> FFprobeStream \<Rightarrow> number list \<times> ('x error + CutDecision)" where
  "needsSmartCut readKeyframesAroundTime findKeyframeAtExactTime findNextKeyframe i18n_t
     path desiredCutFrom videoStream =
     (let readKeyframes = (\<lambda>window.
            readKeyframesAroundTime path (index videoStream) desiredCutFrom window)
      in case readKeyframes (Fin 10) of
           Inl e \<Rightarrow> ([Fin 10], Inl (Rejected e))
         | Inr keyframes \<Rightarrow>
             (case findKeyframeAtExactTime keyframes desiredCutFrom of
                Some keyframeAtExactTime \<Rightarrow>
                  ([Fin 10],
                   Inr \<lparr>losslessCutFrom = time keyframeAtExactTime,
                        segmentNeedsSmartCut = False\<rparr>)
              | None \<Rightarrow>
                  (case findNextKeyframe keyframes desiredCutFrom of
                     Some nextKeyframe \<Rightarrow>
                       ([Fin 10],
                        Inr \<lparr>losslessCutFrom = time nextKeyframe,
                             segmentNeedsSmartCut = True\<rparr>)
                   | None \<Rightarrow>
                       (case readKeyframes (Fin 60) of
                          Inl e \<Rightarrow> ([Fin 10, Fin 60], Inl (Rejected e))
                        | Inr keyframes' \<Rightarrow>
                            (case findNextKeyframe keyframes' desiredCutFrom of
                               None \<Rightarrow>
                                 ([Fin 10, Fin 60],
                                  Inl (UserFacingError (i18n_t
                                    ''Cannot find any keyframe after the desired start cut point'')))
                             | Some nextKeyframe \<Rightarrow>
                                 ([Fin 10, Fin 60],
                                  Inr \<lparr>losslessCutFrom = time nextKeyframe,
                                       segmentNeedsSmartCut = True\<rparr>))))))"

text \<open>
  Modelled from the spec: the two lookups of \<open>./ffmpeg\<close>, whose source is not part of the
  excerpt. Section 4.1 has the first return a keyframe whose time matches the desired time
  exactly, and the second the earliest keyframe with time at or after it; the sequence is
  ascending by time (section 6), so the earliest is the first that qualifies.
\<close>

definition findKeyframeAtExactTime_spec :: "Frame list \<Rightarrow> number \<Rightarrow> Frame option" where
  "findKeyframeAtExactTime_spec keyframes t = find (\<lambda>k. js_eq (time k) t) keyframes"

definition findNextKeyframe_spec :: "Frame list \<Rightarrow> number \<Rightarrow> Frame option" where
  "findNextKeyframe_spec keyframes t = find (\<lambda>k. js_ge (time k) t) keyframes"

section \<open>CodecParameterDeriver\<close>

record CodecParams =
  videoStream :: FFprobeStream
  videoCodec :: property_value
  videoBitrate :: number
  videoTimebase :: "number option"

text \<open>
  \<open>{ av1: 'libsvtav1' }[codec] ?? codec\<close>: the lookup yields the own property, or else an
  inherited one, and only a missing property falls through to \<open>codec\<close>.
\<close>

definition mapVideoCodec :: "string \<Rightarrow> property_value" where
  "mapVideoCodec codec =
     (case (if codec = ''av1'' then Some (Str ''libsvtav1'')
            else if codec \<in> set Object_prototype_properties then Some (Inherited codec)
            else None) of
        Some v \<Rightarrow> v
      | None \<Rightarrow> Str codec)"

text \<open>
  \<open>getRealVideoStreams\<close> and \<open>getVideoTimebase\<close> come from \<open>./util/streams\<close> and
  \<open>stat\<close> from the file-system library; they are parameters. The destructuring
  \<open>[videoStream] = videoStreams\<close> takes the first element, which is \<open>undefined\<close> for
  the empty array; the locals that share a name with a field of the result carry a prime. The byte count of \<open>stat\<close> becomes a number by rounding.
\<close>

definition getCodecParams ::
  "(FFprobeStream list \<Rightarrow> FFprobeStream list) \<Rightarrow>
   (FFprobeStream \<Rightarrow> number option) \<Rightarrow>
   (string \<Rightarrow> 'x + Stats) \<Rightarrow>
   string \<Rightarrow> number option \<Rightarrow> FFprobeStream list \<Rightarrow> 'x error + CodecParams" where
  "getCodecParams getRealVideoStreams getVideoTimebase stat path fileDuration streams =
     (let videoStreams = getRealVideoStreams streams
      in if 1 < length videoStreams
           then Inl (Error ''Can only smart cut video with exactly one video stream'')
         else case videoStreams of
           [] \<Rightarrow> Inl (Error ''Smart cut only works on videos'')
         | videoStream' # _ \<Rightarrow>
             (let parsed = parseInt (bit_rate videoStream')
              in case (if Number_isNaN parsed
                       then (case stat path of
                               Inl e \<Rightarrow> Inl (Rejected e)
                             | Inr stats \<Rightarrow>
                                 (case fileDuration of
                                    None \<Rightarrow> Inl (Error
                                      ''Video duration is unknown, cannot estimate bitrate'')
                                  | Some duration \<Rightarrow>
                                      Inr (fdiv (fmul (fround False (of_nat (stats_size stats)))
                                                      (Fin 8))
                                                duration)))
                       else Inr parsed) of
                   Inl e \<Rightarrow> Inl e
                 | Inr rawBitrate \<Rightarrow>
                     (let videoBitrate' = Math_floor (fmul rawBitrate lit_1_2)
                      in case codec_name videoStream' of
                           None \<Rightarrow> Inl (Error ''Unable to determine codec for smart cut'')
                         | Some detectedVideoCodec \<Rightarrow>
                             Inr \<lparr>videoStream = videoStream',
                                  videoCodec = mapVideoCodec detectedVideoCodec,
                                  videoBitrate = Math_floor videoBitrate',
                                  videoTimebase = getVideoTimebase videoStream'\<rparr>)))"

section \<open>Properties of rounding\<close>

text \<open>
  The simplifier evaluates the floor of a numeral fraction over the reals; the same rule
  for the rationals lets it evaluate \<open>round_mag\<close> on literals.
\<close>

lemma floor_rat_numeral [simp]:
  "\<lfloor>numeral a / numeral b :: rat\<rfloor> = numeral a div numeral b"
  using floor_divide_of_int_eq [of "numeral a" "numeral b", where ?'a = rat] by simp

lemma round_half_even_nonneg: "0 \<le> x \<Longrightarrow> 0 \<le> round_half_even x"
  by (auto simp: round_half_even_def Let_def)

lemma round_half_even_le: "of_int (round_half_even x) \<le> x + 1 / 2"
proof -
  have fl: "of_int \<lfloor>x\<rfloor> \<le> x" by simp
  consider "x - of_int \<lfloor>x\<rfloor> < 1 / 2" | "1 / 2 \<le> x - of_int \<lfloor>x\<rfloor>"
    by linarith
  then show ?thesis
  proof cases
    case 1
    then have "round_half_even x = \<lfloor>x\<rfloor>"
      by (simp add: round_half_even_def Let_def)
    moreover have "of_int \<lfloor>x\<rfloor> \<le> x + 1 / 2"
      using fl by linarith
    ultimately show ?thesis by simp
  next
    case 2
    then have "round_half_even x \<le> \<lfloor>x\<rfloor> + 1"
      by (simp add: round_half_even_def Let_def)
    then have "of_int (round_half_even x) \<le> (of_int \<lfloor>x\<rfloor> + 1 :: rat)"
      by (metis of_int_1 of_int_add of_int_le_iff)
    with 2 show ?thesis by linarith
  qed
qed

lemma scale_down_bound: "2 ^ 53 \<le> a \<Longrightarrow> 2 ^ 52 * 2 ^ scale_down a \<le> a"
proof (induction a rule: scale_down.induct)
  case (1 a)
  show ?case
  proof (cases "a / 2 < 2 ^ 53")
    case True
    then have "scale_down (a / 2) = 0"
      by (simp add: scale_down.simps)
    with "1.prems" show ?thesis
      by (simp add: scale_down.simps [of a])
  next
    case False
    then have "2 ^ 52 * 2 ^ scale_down (a / 2) \<le> a / 2"
      using "1.IH" "1.prems" by simp
    with "1.prems" show ?thesis
      by (simp add: scale_down.simps [of a])
  qed
qed

lemma round_mag_nonneg: "0 \<le> a \<Longrightarrow> 0 \<le> round_mag a"
  by (simp add: round_mag_def Let_def round_half_even_nonneg)

lemma round_mag_big: 
  assumes "2 ^ 53 \<le> a"
  shows "round_mag a \<le> 2 * a"
proof -
  define k where "k = scale_down a"
  have k: "2 ^ 52 * 2 ^ k \<le> a"
    unfolding k_def by (rule scale_down_bound [OF assms])
  have pos: "(0::rat) < 2 ^ k" by simp
  have "of_int (round_half_even (a / 2 ^ k)) \<le> a / 2 ^ k + 1 / 2"
    by (rule round_half_even_le)
  then have "of_int (round_half_even (a / 2 ^ k)) * 2 ^ k \<le> (a / 2 ^ k + 1 / 2) * 2 ^ k"
    using pos by (simp only: mult_le_cancel_right_pos)
  also have "\<dots> = a + 2 ^ k / 2"
    by (simp add: field_simps)
  also have "\<dots> \<le> 2 * a"
  proof -
    have "(2::rat) ^ k \<le> 2 ^ 52 * 2 ^ k" by simp
    with k have "2 ^ k \<le> a" by linarith
    with pos show ?thesis by linarith
  qed
  finally show ?thesis
    using assms by (simp add: round_mag_def Let_def k_def)
qed

lemma round_mag_small:
  assumes "0 \<le> a" "a < 2 ^ 53"
  shows "round_mag a \<le> a + 1 / 2"
proof (cases "a = 0")
  case True
  then show ?thesis by (simp add: round_mag_def)
next
  case False
  define k where "k = scale_up a 0"
  have pos: "(0::rat) < 2 ^ k" by simp
  have "of_int (round_half_even (a * 2 ^ k)) \<le> a * 2 ^ k + 1 / 2"
    by (rule round_half_even_le)
  then have "of_int (round_half_even (a * 2 ^ k)) / 2 ^ k \<le> (a * 2 ^ k + 1 / 2) / 2 ^ k"
    using pos by (simp only: divide_le_cancel) simp
  also have "\<dots> = a + 1 / 2 / 2 ^ k"
    by (simp add: field_simps)
  also have "\<dots> \<le> a + 1 / 2"
  proof -
    have "(1::rat) \<le> 2 ^ k" by simp
    then have "1 / 2 / 2 ^ k \<le> (1 / 2 :: rat)"
      by (simp add: field_simps)
    then show ?thesis by simp
  qed
  finally show ?thesis
    using assms False by (simp add: round_mag_def Let_def k_def)
qed

lemma round_mag_bound:
  assumes "0 \<le> a" "a < 2 ^ 1023"
  shows "round_mag a < 2 ^ 1024"
proof (cases "2 ^ 53 \<le> a")
  case True
  then have "round_mag a \<le> 2 * a" by (rule round_mag_big)
  also have "\<dots> < 2 * 2 ^ 1023" using assms by simp
  finally show ?thesis by simp
next
  case False
  then have "round_mag a \<le> a + 1 / 2" using assms round_mag_small by simp
  also have "\<dots> < 2 ^ 53 + 1" using False by simp
  also have "\<dots> < (2 ^ 1024 :: rat)" by simp
  finally show ?thesis .
qed

lemma lit_1_2_value: "lit_1_2 = Fin (5404319552844595 / 4503599627370496)"
  by (simp add: lit_1_2_def fround_def round_mag_def scale_up.simps round_half_even_def Let_def)

lemma fround_finite:
  assumes "0 \<le> a" "a < 2 ^ 1023"
  shows "fround False a = Fin (round_mag a) \<and> 0 \<le> round_mag a"
  using round_mag_bound [OF assms] round_mag_nonneg [OF assms(1)]
  by (simp add: fround_def Let_def)

lemma fmul_margin_nonneg:
  assumes "0 \<le> v" "v < 2 ^ 1022"
  shows "\<exists>r. fmul (Fin v) lit_1_2 = Fin r \<and> 0 \<le> r"
proof -
  let ?m = "5404319552844595 / 4503599627370496 :: rat"
  have "v * ?m \<le> v * 2"
    using assms(1) by (intro mult_left_mono) simp_all
  also have "\<dots> < 2 ^ 1022 * 2"
    using assms(2) by simp
  finally have bound: "v * ?m < 2 ^ 1023"
    by simp
  have nonneg: "0 \<le> v * ?m"
    using assms(1) by simp
  have "fmul (Fin v) lit_1_2 = fround False (v * ?m)"
    using assms(1) by (simp add: fmul_def lit_1_2_value)
  with fround_finite [OF nonneg bound] show ?thesis
    by simp
qed

lemma floor_twice_nonneg:
  assumes "0 \<le> r"
  shows "\<exists>n::nat. Math_floor (Math_floor (Fin r)) = Fin (of_nat n)"
proof -
  have "0 \<le> \<lfloor>r\<rfloor>" using assms by simp
  then have "(of_nat (nat \<lfloor>r\<rfloor>) :: rat) = of_int \<lfloor>r\<rfloor>"
    by (rule of_nat_nat)
  moreover have "Math_floor (Math_floor (Fin r)) = Fin (of_int \<lfloor>r\<rfloor>)"
    by simp
  ultimately have "Math_floor (Math_floor (Fin r)) = Fin (of_nat (nat \<lfloor>r\<rfloor>))"
    by (simp only:)
  then show ?thesis ..
qed

section \<open>Properties of the EncoderQualityMapper\<close>

subsection \<open>Which exact names a substring excludes\<close>

lemma videotoolbox_names:
  assumes "String_includes encoder ''videotoolbox''"
  shows "encoder \<notin> {''libx264'', ''libx265'', ''libsvtav1'', ''h264_nvenc'', ''hevc_nvenc'',
           ''av1_nvenc'', ''h264_qsv'', ''hevc_qsv'', ''av1_qsv'', ''h264_amf'', ''hevc_amf'',
           ''av1_amf''}"
  using assms by auto

lemma nvenc_names:
  assumes "String_includes encoder ''nvenc''"
  shows "encoder \<notin> {''libx264'', ''libx265'', ''libsvtav1'', ''h264_videotoolbox'',
           ''hevc_videotoolbox'', ''h264_qsv'', ''hevc_qsv'', ''av1_qsv'', ''h264_amf'',
           ''hevc_amf'', ''av1_amf''}"
  using assms by auto

lemma videotoolbox_no_CRF:
  "String_includes encoder ''videotoolbox'' \<Longrightarrow> getOptimalCRF encoder = None"
  using videotoolbox_names [of encoder] by (simp add: getOptimalCRF_def)

lemma videotoolbox_preset:
  "String_includes encoder ''videotoolbox'' \<Longrightarrow>
   getOptimalPreset encoder = (if String_includes encoder ''nvenc'' then Some ''p4'' else None)"
  using videotoolbox_names [of encoder] by (simp add: getOptimalPreset_def)

lemma nvenc_no_CRF:
  assumes "String_includes encoder ''nvenc''"
    and "encoder \<noteq> ''h264_nvenc''" and "encoder \<noteq> ''hevc_nvenc''"
    and "encoder \<noteq> ''av1_nvenc''"
  shows "getOptimalCRF encoder = None"
  using nvenc_names [OF assms(1)] assms(2-4) by (simp add: getOptimalCRF_def)

lemma nvenc_preset:
  "String_includes encoder ''nvenc'' \<Longrightarrow> getOptimalPreset encoder = Some ''p4''"
  using nvenc_names [of encoder] by (simp add: getOptimalPreset_def)

subsection \<open>The two documented examples\<close>

text \<open>
  Claim C6. With no overrides, \<open>getEncoderQualityArgs('libx264', 0)\<close> is exactly
  \<open>['-crf:0', '23', '-preset:0', 'medium']\<close>, the rate-factor pair before the preset
  pair; and \<open>getEncoderQualityArgs('h264_nvenc', 2, 18)\<close> is exactly
  \<open>['-cq:2', '18', '-preset:2', 'p4']\<close>: the override 18 replaces the default 23 and
  the default preset is kept.
\<close>

theorem getEncoderQualityArgs_examples:
  "getEncoderQualityArgs shortest ''libx264'' (Fin 0) None None =
     [''-crf:0'', ''23'', ''-preset:0'', ''medium''] \<and>
   getEncoderQualityArgs shortest ''h264_nvenc'' (Fin 2) (Some (Fin 18)) None =
     [''-cq:2'', ''18'', ''-preset:2'', ''p4'']"
  by (simp add: getEncoderQualityArgs_def getOptimalCRF_def getOptimalPreset_def
      NumberToString_def decimal.simps)

subsection \<open>The VideoToolbox family\<close>

text \<open>
  Claim C7, as stated, fails: \<open>getOptimalPreset\<close> tests for \<open>nvenc\<close> before it tests
  for \<open>videotoolbox\<close>, so an identifier that contains both gets the preset \<open>p4\<close>, and
  the result has four tokens.
\<close>

theorem videotoolbox_two_tokens_counterexample:
  "String_includes ''videotoolbox_nvenc'' ''videotoolbox'' \<and>
   getEncoderQualityArgs (\<lambda>r. []) ''videotoolbox_nvenc'' (Fin 0) None None =
     [''-preset:0'', ''p4'', ''-q:0'', ''65''] \<and>
   getEncoderQualityArgs (\<lambda>r. []) ''videotoolbox_nvenc'' (Fin 0) None None \<noteq>
     [''-q:0'', ''65'']"
  by (simp add: getEncoderQualityArgs_def getOptimalCRF_def getOptimalPreset_def
      NumberToString_def decimal.simps)

text \<open>
  Claim C7, amended. For every encoder identifier that contains \<open>videotoolbox\<close> and
  every output index, \<open>getEncoderQualityArgs\<close> with no overrides emits no CRF pair and
  ends with the pair \<open>-q:<outputIndex>\<close>, \<open>65\<close>; these two tokens are the whole result
  when the identifier does not contain \<open>nvenc\<close>, and otherwise the preset pair
  \<open>-preset:<outputIndex>\<close>, \<open>p4\<close> precedes them.
\<close>

theorem getEncoderQualityArgs_videotoolbox:
  assumes "String_includes encoder ''videotoolbox''"
  shows "getEncoderQualityArgs shortest encoder outputIndex None None =
           (if String_includes encoder ''nvenc''
            then [''-preset:'' @ NumberToString shortest outputIndex, ''p4'']
            else []) @
           [''-q:'' @ NumberToString shortest outputIndex, ''65'']"
  using assms
  by (simp add: getEncoderQualityArgs_def Let_def videotoolbox_no_CRF videotoolbox_preset)

theorem getEncoderQualityArgs_videotoolbox_witness:
  "String_includes ''h264_videotoolbox'' ''videotoolbox'' \<and>
   getEncoderQualityArgs (\<lambda>r. []) ''h264_videotoolbox'' (Fin 1) None None = [''-q:1'', ''65'']"
  using getEncoderQualityArgs_videotoolbox [of "''h264_videotoolbox''" "\<lambda>r. []" "Fin 1"]
  by (simp add: NumberToString_def decimal.simps)

subsection \<open>A quality override on a family without a dialect of its own\<close>

text \<open>
  Claim C9. For every encoder identifier that contains none of \<open>nvenc\<close>, \<open>qsv\<close> and
  \<open>amf\<close>, and every numeric quality override \<open>q\<close>, the result of
  \<open>getEncoderQualityArgs\<close> starts with the generic pair \<open>-crf:<outputIndex>\<close>,
  \<open>String(q)\<close>: the override is passed through, neither rejected nor dropped. The preset
  pair (if a preset is resolved) and the VideoToolbox pair (if the identifier contains
  \<open>videotoolbox\<close>) follow it.
\<close>

theorem getEncoderQualityArgs_override_generic:
  assumes "\<not> String_includes encoder ''nvenc''"
    and "\<not> String_includes encoder ''qsv''"
    and "\<not> String_includes encoder ''amf''"
  shows "getEncoderQualityArgs shortest encoder outputIndex (Some q) customPreset =
           [''-crf:'' @ NumberToString shortest outputIndex, NumberToString shortest q] @
           (case (case customPreset of Some p \<Rightarrow> Some p | None \<Rightarrow> getOptimalPreset encoder) of
              None \<Rightarrow> []
            | Some p \<Rightarrow> [''-preset:'' @ NumberToString shortest outputIndex, p]) @
           (if String_includes encoder ''videotoolbox''
            then [''-q:'' @ NumberToString shortest outputIndex, ''65'']
            else [])"
  using assms by (simp add: getEncoderQualityArgs_def Let_def split: option.splits)

theorem getEncoderQualityArgs_override_generic_witness:
  "\<not> String_includes ''h264_videotoolbox'' ''nvenc'' \<and>
   \<not> String_includes ''h264_videotoolbox'' ''qsv'' \<and>
   \<not> String_includes ''h264_videotoolbox'' ''amf'' \<and>
   getEncoderQualityArgs (\<lambda>r. []) ''h264_videotoolbox'' (Fin 0) (Some (Fin 20)) None =
     [''-crf:0'', ''20'', ''-q:0'', ''65'']"
  using getEncoderQualityArgs_override_generic
    [of "''h264_videotoolbox''" "\<lambda>r. []" "Fin 0" "Fin 20" None]
  by (simp add: getOptimalPreset_def NumberToString_def decimal.simps)

subsection \<open>NVENC names outside the exact list\<close>

text \<open>
  Claim C10, as stated, fails on the same order of tests: an identifier that contains
  \<open>nvenc\<close> and \<open>videotoolbox\<close> gets the fixed quality-scale pair after the preset pair.
\<close>

theorem nvenc_only_preset_counterexample:
  "String_includes ''nvenc_videotoolbox'' ''nvenc'' \<and>
   ''nvenc_videotoolbox'' \<noteq> ''h264_nvenc'' \<and>
   ''nvenc_videotoolbox'' \<noteq> ''hevc_nvenc'' \<and>
   ''nvenc_videotoolbox'' \<noteq> ''av1_nvenc'' \<and>
   getEncoderQualityArgs (\<lambda>r. []) ''nvenc_videotoolbox'' (Fin 0) None None =
     [''-preset:0'', ''p4'', ''-q:0'', ''65''] \<and>
   getEncoderQualityArgs (\<lambda>r. []) ''nvenc_videotoolbox'' (Fin 0) None None \<noteq>
     [''-preset:0'', ''p4'']"
  by (simp add: getEncoderQualityArgs_def getOptimalCRF_def getOptimalPreset_def
      NumberToString_def decimal.simps)

text \<open>
  Claim C10, amended. \<open>getOptimalCRF\<close> knows the NVENC, QuickSync, AMF and software
  encoders by exact name only, \<open>getOptimalPreset\<close> knows \<open>nvenc\<close> by substring. So for
  every identifier that contains \<open>nvenc\<close> and is none of \<open>h264_nvenc\<close>,
  \<open>hevc_nvenc\<close>, \<open>av1_nvenc\<close>: \<open>supportsCRF\<close> is false, and
  \<open>getEncoderQualityArgs\<close> with no overrides emits no CRF pair and the preset pair
  \<open>-preset:<outputIndex>\<close>, \<open>p4\<close>; that pair is the whole result when the identifier does
  not contain \<open>videotoolbox\<close>, and otherwise the pair \<open>-q:<outputIndex>\<close>, \<open>65\<close>
  follows it.
\<close>

theorem getEncoderQualityArgs_nvenc_unlisted:
  assumes "String_includes encoder ''nvenc''"
    and "encoder \<noteq> ''h264_nvenc''" and "encoder \<noteq> ''hevc_nvenc''"
    and "encoder \<noteq> ''av1_nvenc''"
  shows "supportsCRF encoder = False \<and>
         getEncoderQualityArgs shortest encoder outputIndex None None =
           [''-preset:'' @ NumberToString shortest outputIndex, ''p4''] @
           (if String_includes encoder ''videotoolbox''
            then [''-q:'' @ NumberToString shortest outputIndex, ''65'']
            else [])"
  using assms
  by (simp add: supportsCRF_def getEncoderQualityArgs_def Let_def nvenc_no_CRF nvenc_preset)

theorem getEncoderQualityArgs_nvenc_unlisted_witness:
  "String_includes ''h265_nvenc'' ''nvenc'' \<and>
   ''h265_nvenc'' \<noteq> ''h264_nvenc'' \<and> ''h265_nvenc'' \<noteq> ''hevc_nvenc'' \<and>
   ''h265_nvenc'' \<noteq> ''av1_nvenc'' \<and>
   supportsCRF ''h265_nvenc'' = False \<and>
   getEncoderQualityArgs (\<lambda>r. []) ''h265_nvenc'' (Fin 0) None None = [''-preset:0'', ''p4'']"
  using getEncoderQualityArgs_nvenc_unlisted [of "''h265_nvenc''" "\<lambda>r. []" "Fin 0"]
  by (simp add: NumberToString_def decimal.simps)

section \<open>Properties of the CodecParameterDeriver\<close>

text \<open>What a successful call returns.\<close>

lemma getCodecParams_Inr:
  assumes "getCodecParams getRealVideoStreams getVideoTimebase stat path fileDuration streams = Inr p"
  shows "\<exists>v c raw.
           getRealVideoStreams streams = [v] \<and> codec_name v = Some c \<and>
           (if parseInt (bit_rate v) = NaN
            then \<exists>st d. stat path = Inr st \<and> fileDuration = Some d \<and>
                   raw = fdiv (fmul (fround False (of_nat (stats_size st))) (Fin 8)) d
            else raw = parseInt (bit_rate v)) \<and>
           p = \<lparr>videoStream = v, videoCodec = mapVideoCodec c,
                videoBitrate = Math_floor (Math_floor (fmul raw lit_1_2)),
                videoTimebase = getVideoTimebase v\<rparr>"
proof (cases "getRealVideoStreams streams")
  case Nil
  with assms show ?thesis
    by (simp add: getCodecParams_def)
next
  case (Cons v rest)
  show ?thesis
  proof (cases rest)
    case Nil
    with Cons assms show ?thesis
      by (auto simp: getCodecParams_def Number_isNaN_def Let_def
          split: if_splits sum.splits option.splits)
  next
    case (Cons w rest')
    with \<open>getRealVideoStreams streams = v # rest\<close> assms show ?thesis
      by (simp add: getCodecParams_def)
  qed
qed

lemma parseInt_not_available: "parseInt (Some ''N/A'') = NaN"
  by (simp add: parseInt_def StrWhiteSpaceChar_def is_digit_def)

lemma estimate_example: "fdiv (fmul (fround False 12500000) (Fin 8)) (Fin 100) = Fin 1000000"
  by (simp add: fdiv_def fmul_def fround_def round_mag_def scale_up.simps round_half_even_def Let_def)

lemma margin_example: "Math_floor (Math_floor (fmul (Fin 1000000) lit_1_2)) = Fin 1200000"
  by (simp add: fmul_def lit_1_2_value fround_def round_mag_def scale_up.simps round_half_even_def Let_def)

subsection \<open>The documented estimate\<close>

text \<open>
  Claim C3. For every call with exactly one real video stream whose \<open>bit_rate\<close> string
  is unparseable, with \<open>fileDuration = 100\<close> and a file whose \<open>stat\<close> reports
  12,500,000 bytes: the raw estimate \<open>size * 8 / fileDuration\<close> is 1,000,000, and the
  call returns \<open>videoBitrate = 1200000\<close>, the floor of the estimate times the double
  \<open>1.2\<close> (the call returns whenever the stream has a codec name).
\<close>

theorem getCodecParams_estimated_example:
  assumes "getRealVideoStreams streams = [v]"
    and "parseInt (bit_rate v) = NaN"
    and "stat path = Inr st" and "stats_size st = 12500000"
  shows "fdiv (fmul (fround False (of_nat (stats_size st))) (Fin 8)) (Fin 100) = Fin 1000000 \<and>
         getCodecParams getRealVideoStreams getVideoTimebase stat path (Some (Fin 100)) streams =
           (case codec_name v of
              None \<Rightarrow> Inl (Error ''Unable to determine codec for smart cut'')
            | Some c \<Rightarrow> Inr \<lparr>videoStream = v, videoCodec = mapVideoCodec c,
                  videoBitrate = Fin 1200000, videoTimebase = getVideoTimebase v\<rparr>)"
  using assms
  by (simp add: getCodecParams_def Number_isNaN_def Let_def estimate_example margin_example split: option.splits)

theorem getCodecParams_estimated_example_witness:
  "parseInt (bit_rate \<lparr>index = 0, codec_type = ''video'', codec_name = Some ''h264'',
      bit_rate = Some ''N/A'', time_base = Some ''1/90000'', disposition = None\<rparr>) = NaN \<and>
   getCodecParams (\<lambda>s. s) (\<lambda>s. None) (\<lambda>f. Inr \<lparr>stats_size = 12500000\<rparr> :: unit + Stats)
     ''in.mp4'' (Some (Fin 100))
     [\<lparr>index = 0, codec_type = ''video'', codec_name = Some ''h264'',
       bit_rate = Some ''N/A'', time_base = Some ''1/90000'', disposition = None\<rparr>] =
   Inr \<lparr>videoStream = \<lparr>index = 0, codec_type = ''video'', codec_name = Some ''h264'',
             bit_rate = Some ''N/A'', time_base = Some ''1/90000'', disposition = None\<rparr>,
        videoCodec = Str ''h264'', videoBitrate = Fin 1200000, videoTimebase = None\<rparr>"
  using getCodecParams_estimated_example [of "\<lambda>s. s" "[\<lparr>index = 0, codec_type = ''video'', codec_name = Some ''h264'',
       bit_rate = Some ''N/A'', time_base = Some ''1/90000'', disposition = None\<rparr>]"
      "\<lparr>index = 0, codec_type = ''video'', codec_name = Some ''h264'',
       bit_rate = Some ''N/A'', time_base = Some ''1/90000'', disposition = None\<rparr>"
      "\<lambda>f. Inr \<lparr>stats_size = 12500000\<rparr> :: unit + Stats" "''in.mp4''" "\<lparr>stats_size = 12500000\<rparr>"
      "\<lambda>s. None"]
  by (simp add: parseInt_not_available mapVideoCodec_def Object_prototype_properties_def)

subsection \<open>The sign and the kind of the bitrate\<close>

text \<open>
  With a positive finite duration the estimate is never negative and never \<open>NaN\<close>: it
  is a non-negative number, or \<open>Infinity\<close> when the quotient overflows.
\<close>

lemma fround_False_cases: "0 \<le> a \<Longrightarrow> fround False a = PosInf \<or> (\<exists>b. fround False a = Fin b \<and> 0 \<le> b)"
  using round_mag_nonneg [of a] by (simp add: fround_def Let_def)

lemma estimate_nonneg:
  assumes "0 < d"
  shows "fdiv (fmul (fround False (of_nat n)) (Fin 8)) (Fin d) = PosInf \<or>
         (\<exists>b. fdiv (fmul (fround False (of_nat n)) (Fin 8)) (Fin d) = Fin b \<and> 0 \<le> b)"
proof -
  have s: "fround False (of_nat n) = PosInf \<or> (\<exists>b. fround False (of_nat n) = Fin b \<and> 0 \<le> b)"
    by (rule fround_False_cases) simp
  have m: "fmul (fround False (of_nat n)) (Fin 8) = PosInf \<or>
           (\<exists>b. fmul (fround False (of_nat n)) (Fin 8) = Fin b \<and> 0 \<le> b)"
    using s
  proof
    assume "fround False (of_nat n) = PosInf"
    then show ?thesis by (simp add: fmul_def infinity_def)
  next
    assume "\<exists>b. fround False (of_nat n) = Fin b \<and> 0 \<le> b"
    then obtain b where b: "fround False (of_nat n) = Fin b" "0 \<le> b" by blast
    then have "fmul (fround False (of_nat n)) (Fin 8) = fround False (b * 8)"
      by (simp add: fmul_def)
    with fround_False_cases [of "b * 8"] b(2) show ?thesis by simp
  qed
  then show ?thesis
  proof
    assume "fmul (fround False (of_nat n)) (Fin 8) = PosInf"
    then show ?thesis using assms by (simp add: fdiv_def infinity_def)
  next
    assume "\<exists>b. fmul (fround False (of_nat n)) (Fin 8) = Fin b \<and> 0 \<le> b"
    then obtain b where b: "fmul (fround False (of_nat n)) (Fin 8) = Fin b" "0 \<le> b" by blast
    then have "fdiv (fmul (fround False (of_nat n)) (Fin 8)) (Fin d) = fround False (b / d)"
      using assms by (simp add: fdiv_def)
    with fround_False_cases [of "b / d"] b(2) assms show ?thesis by simp
  qed
qed

text \<open>
  Claim C5, as stated, fails. Nothing clamps the bitrate: a \<open>bit_rate\<close> string that
  parses to a negative integer gives a negative \<open>videoBitrate\<close>, and a file of size 0
  with \<open>fileDuration = 0\<close> gives the estimate \<open>0 / 0\<close>, so \<open>videoBitrate\<close> is
  \<open>NaN\<close>; both calls return.
\<close>

theorem videoBitrate_nonneg_counterexample:
  "getCodecParams (\<lambda>s. s) (\<lambda>s. None) (\<lambda>f. Inr \<lparr>stats_size = 12500000\<rparr> :: unit + Stats)
     ''in.mp4'' (Some (Fin 100))
     [\<lparr>index = 0, codec_type = ''video'', codec_name = Some ''h264'',
       bit_rate = Some ''-1000'', time_base = Some ''1/90000'', disposition = None\<rparr>] =
   Inr \<lparr>videoStream = \<lparr>index = 0, codec_type = ''video'', codec_name = Some ''h264'',
             bit_rate = Some ''-1000'', time_base = Some ''1/90000'', disposition = None\<rparr>,
        videoCodec = Str ''h264'', videoBitrate = Fin (- 1200), videoTimebase = None\<rparr> \<and>
   getCodecParams (\<lambda>s. s) (\<lambda>s. None) (\<lambda>f. Inr \<lparr>stats_size = 0\<rparr> :: unit + Stats)
     ''in.mp4'' (Some (Fin 0))
     [\<lparr>index = 0, codec_type = ''video'', codec_name = Some ''h264'',
       bit_rate = Some ''N/A'', time_base = Some ''1/90000'', disposition = None\<rparr>] =
   Inr \<lparr>videoStream = \<lparr>index = 0, codec_type = ''video'', codec_name = Some ''h264'',
             bit_rate = Some ''N/A'', time_base = Some ''1/90000'', disposition = None\<rparr>,
        videoCodec = Str ''h264'', videoBitrate = NaN, videoTimebase = None\<rparr>"
  by (simp add: getCodecParams_def parseInt_def StrWhiteSpaceChar_def is_digit_def
      digits_value_def Number_isNaN_def fmul_def fdiv_def lit_1_2_value fround_def
      round_mag_def scale_up.simps round_half_even_def Let_def mapVideoCodec_def
      Object_prototype_properties_def)

text \<open>
  Claim C5, amended. For every successful call whose raw bitrate (the parsed
  \<open>bit_rate\<close>, or, when that is unparseable, the estimate from the file size and
  \<open>fileDuration\<close>) is a finite number \<open>b\<close> with \<open>0 \<le> b < 2 ^ 1022\<close>, the
  returned \<open>videoBitrate\<close> is a non-negative integer (so neither \<open>NaN\<close> nor
  negative nor infinite).
\<close>

theorem videoBitrate_nonneg_integer:
  assumes ret: "getCodecParams getRealVideoStreams getVideoTimebase stat path fileDuration streams = Inr p"
    and raw: "parseInt (bit_rate (videoStream p)) = Fin b \<or>
              (parseInt (bit_rate (videoStream p)) = NaN \<and>
               (\<exists>st d. stat path = Inr st \<and> fileDuration = Some d \<and>
                  fdiv (fmul (fround False (of_nat (stats_size st))) (Fin 8)) d = Fin b))"
    and nonneg: "0 \<le> b" and bound: "b < 2 ^ 1022"
  shows "\<exists>n::nat. videoBitrate p = Fin (of_nat n)"
proof -
  from getCodecParams_Inr [OF ret] obtain v c r where
    r: "if parseInt (bit_rate v) = NaN
        then \<exists>st d. stat path = Inr st \<and> fileDuration = Some d \<and>
               r = fdiv (fmul (fround False (of_nat (stats_size st))) (Fin 8)) d
        else r = parseInt (bit_rate v)"
    and p: "p = \<lparr>videoStream = v, videoCodec = mapVideoCodec c,
                 videoBitrate = Math_floor (Math_floor (fmul r lit_1_2)),
                 videoTimebase = getVideoTimebase v\<rparr>"
    by blast
  from p have vs: "videoStream p = v" by simp
  have "r = Fin b"
    using raw r unfolding vs by (auto split: if_splits)
  moreover from fmul_margin_nonneg [OF nonneg bound] obtain q where
    "fmul (Fin b) lit_1_2 = Fin q" and "0 \<le> q"
    by blast
  ultimately have "videoBitrate p = Math_floor (Math_floor (Fin q))"
    using p by simp
  with floor_twice_nonneg [OF \<open>0 \<le> q\<close>] show ?thesis
    by simp
qed

lemma parseInt_128000: "parseInt (Some ''128000'') = Fin 128000"
  by (simp add: parseInt_def StrWhiteSpaceChar_def is_digit_def digits_value_def
      fround_def round_mag_def scale_up.simps round_half_even_def Let_def)

theorem videoBitrate_nonneg_integer_witness:
  "getCodecParams (\<lambda>s. s) (\<lambda>s. None) (\<lambda>f. Inr \<lparr>stats_size = 12500000\<rparr> :: unit + Stats)
     ''in.mp4'' (Some (Fin 100))
     [\<lparr>index = 0, codec_type = ''video'', codec_name = Some ''h264'',
       bit_rate = Some ''128000'', time_base = Some ''1/90000'', disposition = None\<rparr>] =
   Inr \<lparr>videoStream = \<lparr>index = 0, codec_type = ''video'', codec_name = Some ''h264'',
             bit_rate = Some ''128000'', time_base = Some ''1/90000'', disposition = None\<rparr>,
        videoCodec = Str ''h264'', videoBitrate = Fin 153600, videoTimebase = None\<rparr> \<and>
   parseInt (Some ''128000'') = Fin 128000 \<and>
   (\<exists>n::nat. Fin 153600 = Fin (of_nat n))"
proof -
  let ?s = "\<lparr>index = 0, codec_type = ''video'', codec_name = Some ''h264'',
       bit_rate = Some ''128000'', time_base = Some ''1/90000'', disposition = None\<rparr>"
  let ?p = "\<lparr>videoStream = ?s, videoCodec = Str ''h264'', videoBitrate = Fin 153600,
       videoTimebase = None\<rparr>"
  have ret: "getCodecParams (\<lambda>s. s) (\<lambda>s. None) (\<lambda>f. Inr \<lparr>stats_size = 12500000\<rparr> :: unit + Stats)
     ''in.mp4'' (Some (Fin 100)) [?s] = Inr ?p"
    by (simp add: getCodecParams_def parseInt_128000 Number_isNaN_def fmul_def lit_1_2_value
        fround_def round_mag_def scale_up.simps round_half_even_def Let_def mapVideoCodec_def
        Object_prototype_properties_def)
  have raw: "parseInt (bit_rate (videoStream ?p)) = Fin 128000 \<or>
              (parseInt (bit_rate (videoStream ?p)) = NaN \<and>
               (\<exists>st d. (Inr \<lparr>stats_size = 12500000\<rparr> :: unit + Stats) = Inr st \<and> Some (Fin 100) = Some d \<and>
                  fdiv (fmul (fround False (of_nat (stats_size st))) (Fin 8)) d = Fin 128000))"
    by (simp add: parseInt_128000)
  have "\<exists>n::nat. videoBitrate ?p = Fin (of_nat n)"
    by (rule videoBitrate_nonneg_integer [OF ret raw]) simp_all
  with ret show ?thesis
    by (simp add: parseInt_128000)
qed

subsection \<open>The codec substitution\<close>

text \<open>
  Outside the property names of \<open>Object.prototype\<close> the substitution has its one entry
  and passes every other name through.
\<close>

lemma mapVideoCodec_own:
  "codec \<notin> set Object_prototype_properties \<Longrightarrow>
   mapVideoCodec codec = (if codec = ''av1'' then Str ''libsvtav1'' else Str codec)"
  by (simp add: mapVideoCodec_def)

lemma getCodecParams_videoCodec:
  assumes "getCodecParams getRealVideoStreams getVideoTimebase stat path fileDuration streams = Inr p"
    and "codec_name (videoStream p) = Some c"
    and "c \<notin> set Object_prototype_properties"
  shows "videoCodec p = (if c = ''av1'' then Str ''libsvtav1'' else Str c)"
  using getCodecParams_Inr [OF assms(1)] assms(2,3)
  by (auto simp: mapVideoCodec_own)

text \<open>
  Claim C8 holds for those names (the lemma above), and the code breaks it on the others: for
  the codec identifier \<open>constructor\<close> the lookup finds the inherited property, which is
  not nullish, so \<open>videoCodec\<close> is that member of \<open>Object.prototype\<close> and not the
  identifier.
\<close>

theorem getCodecParams_inherited_codec:
  "getCodecParams (\<lambda>s. s) (\<lambda>s. None) (\<lambda>f. Inr \<lparr>stats_size = 12500000\<rparr> :: unit + Stats)
     ''in.mp4'' (Some (Fin 100))
     [\<lparr>index = 0, codec_type = ''video'', codec_name = Some ''constructor'',
       bit_rate = Some ''128000'', time_base = Some ''1/90000'', disposition = None\<rparr>] =
   Inr \<lparr>videoStream = \<lparr>index = 0, codec_type = ''video'', codec_name = Some ''constructor'',
             bit_rate = Some ''128000'', time_base = Some ''1/90000'', disposition = None\<rparr>,
        videoCodec = Inherited ''constructor'', videoBitrate = Fin 153600,
        videoTimebase = None\<rparr> \<and>
   Inherited ''constructor'' \<noteq> Str ''constructor''"
  by (simp add: getCodecParams_def parseInt_128000 Number_isNaN_def fmul_def lit_1_2_value
      fround_def round_mag_def scale_up.simps round_half_even_def Let_def mapVideoCodec_def
      Object_prototype_properties_def)

subsection \<open>The failures\<close>

text \<open>
  Claim C4, amended. \<open>getCodecParams\<close> fails in exactly these cases: the classifier
  selects no real video stream, or more than one, or exactly one and its codec identifier
  is absent, or its bit rate is unparseable and \<open>fileDuration\<close> is absent, or its bit
  rate is unparseable and \<open>stat\<close> itself rejects. No failure is of the user-facing
  kind; the rejection of \<open>stat\<close> propagates unchanged (it is awaited before
  \<open>fileDuration\<close> is tested), and every other failure is a plain \<open>Error\<close>.
\<close>

theorem getCodecParams_failures:
  "((\<exists>e. getCodecParams getRealVideoStreams getVideoTimebase stat path fileDuration streams = Inl e) =
      (getRealVideoStreams streams = [] \<or> 1 < length (getRealVideoStreams streams) \<or>
       (\<exists>v. getRealVideoStreams streams = [v] \<and>
          (codec_name v = None \<or>
           (parseInt (bit_rate v) = NaN \<and>
            (fileDuration = None \<or> (\<exists>x. stat path = Inl x))))))) \<and>
   getCodecParams getRealVideoStreams getVideoTimebase stat path fileDuration streams \<noteq>
     Inl (UserFacingError m) \<and>
   ((getCodecParams getRealVideoStreams getVideoTimebase stat path fileDuration streams =
       Inl (Rejected x)) =
      (\<exists>v. getRealVideoStreams streams = [v] \<and> parseInt (bit_rate v) = NaN \<and>
           stat path = Inl x))"
proof (cases "getRealVideoStreams streams")
  case Nil
  then show ?thesis
    by (simp add: getCodecParams_def)
next
  case (Cons v rest)
  show ?thesis
  proof (cases rest)
    case Nil
    with Cons show ?thesis
      by (auto simp: getCodecParams_def Number_isNaN_def Let_def
          split: sum.splits option.splits)
  next
    case (Cons w rest')
    with \<open>getRealVideoStreams streams = v # rest\<close> show ?thesis
      by (simp add: getCodecParams_def)
  qed
qed

text \<open>
  Claim C4, as stated, fails: the four cases it lists are not all. With one real video
  stream that has a codec name and an unparseable bit rate, and a known duration, the call
  still fails when \<open>stat\<close> rejects.
\<close>

theorem getCodecParams_failures_counterexample:
  "length [\<lparr>index = 0, codec_type = ''video'', codec_name = Some ''h264'',
       bit_rate = Some ''N/A'', time_base = Some ''1/90000'', disposition = None\<rparr>] = 1 \<and>
   codec_name \<lparr>index = 0, codec_type = ''video'', codec_name = Some ''h264'',
       bit_rate = Some ''N/A'', time_base = Some ''1/90000'', disposition = None\<rparr> \<noteq> None \<and>
   Some (Fin 100) \<noteq> (None :: number option) \<and>
   getCodecParams (\<lambda>s. s) (\<lambda>s. None) (\<lambda>f. Inl ''ENOENT'' :: string + Stats)
     ''missing.mp4'' (Some (Fin 100))
     [\<lparr>index = 0, codec_type = ''video'', codec_name = Some ''h264'',
       bit_rate = Some ''N/A'', time_base = Some ''1/90000'', disposition = None\<rparr>] =
   Inl (Rejected ''ENOENT'')"
  by (simp add: getCodecParams_def parseInt_not_available Number_isNaN_def)

section \<open>Properties of the CutPointResolver\<close>

subsection \<open>The lookups as the specification describes them\<close>

lemma findKeyframeAtExactTime_spec_Some:
  "findKeyframeAtExactTime_spec ks t = Some k \<Longrightarrow> js_eq (time k) t"
  by (auto simp: findKeyframeAtExactTime_spec_def find_Some_iff)

lemma findNextKeyframe_spec_Some:
  "findNextKeyframe_spec ks t = Some k \<Longrightarrow> js_ge (time k) t"
  by (auto simp: findNextKeyframe_spec_def find_Some_iff)

lemma findKeyframeAtExactTime_spec_None:
  "(findKeyframeAtExactTime_spec ks t = None) = (\<forall>k\<in>set ks. \<not> js_eq (time k) t)"
  by (auto simp: findKeyframeAtExactTime_spec_def find_None_iff)

lemma findNextKeyframe_spec_None:
  "(findNextKeyframe_spec ks t = None) = (\<forall>k\<in>set ks. \<not> js_ge (time k) t)"
  by (auto simp: findNextKeyframe_spec_def find_None_iff)

subsection \<open>The cut point\<close>

text \<open>
  Claim C1. Let \<open>findKeyframeAtExactTime\<close> return only a keyframe whose time equals
  (\<open>===\<close>) the desired time, and \<open>findNextKeyframe\<close> only a keyframe whose time is
  \<open>>=\<close> the desired time. Then for every call of \<open>needsSmartCut\<close> that returns a
  decision: if \<open>segmentNeedsSmartCut\<close> is false, \<open>losslessCutFrom\<close> equals
  \<open>desiredCutFrom\<close>, and if it is true, \<open>losslessCutFrom >= desiredCutFrom\<close>.
\<close>

theorem needsSmartCut_cut_point:
  assumes exact: "\<And>ks t k. findKeyframeAtExactTime ks t = Some k \<Longrightarrow> js_eq (time k) t"
    and nxt: "\<And>ks t k. findNextKeyframe ks t = Some k \<Longrightarrow> js_ge (time k) t"
    and ret: "needsSmartCut readKeyframesAroundTime findKeyframeAtExactTime findNextKeyframe
                i18n_t path desiredCutFrom stream = (queries, Inr decision)"
  shows "(if segmentNeedsSmartCut decision
          then js_ge (losslessCutFrom decision) desiredCutFrom
          else js_eq (losslessCutFrom decision) desiredCutFrom)"
  using ret
  by (auto simp: needsSmartCut_def Let_def exact nxt split: sum.splits option.splits)

theorem needsSmartCut_cut_point_witness:
  "needsSmartCut (\<lambda>p i t w. Inr [\<lparr>time = Fin 4\<rparr>, \<lparr>time = Fin 7\<rparr>] :: unit + Frame list)
     findKeyframeAtExactTime_spec findNextKeyframe_spec (\<lambda>m. m) ''in.mp4'' (Fin 6)
     \<lparr>index = 0, codec_type = ''video'', codec_name = Some ''h264'', bit_rate = None,
      time_base = None, disposition = None\<rparr> =
     ([Fin 10], Inr \<lparr>losslessCutFrom = Fin 7, segmentNeedsSmartCut = True\<rparr>) \<and>
   js_ge (Fin 7) (Fin 6)"
proof -
  have ret: "needsSmartCut (\<lambda>p i t w. Inr [\<lparr>time = Fin 4\<rparr>, \<lparr>time = Fin 7\<rparr>] :: unit + Frame list)
     findKeyframeAtExactTime_spec findNextKeyframe_spec (\<lambda>m. m) ''in.mp4'' (Fin 6)
     \<lparr>index = 0, codec_type = ''video'', codec_name = Some ''h264'', bit_rate = None,
      time_base = None, disposition = None\<rparr> =
     ([Fin 10], Inr \<lparr>losslessCutFrom = Fin 7, segmentNeedsSmartCut = True\<rparr>)"
    by (simp add: needsSmartCut_def findKeyframeAtExactTime_spec_def findNextKeyframe_spec_def
        js_eq_def)
  from needsSmartCut_cut_point [OF findKeyframeAtExactTime_spec_Some findNextKeyframe_spec_Some ret] ret
  show ?thesis by simp
qed

subsection \<open>The queries and the user-facing error\<close>

text \<open>
  Claim C2. Let the lookups find a keyframe whenever the queried window holds one: the
  first returns nothing exactly when no keyframe of the window is at the desired time, the
  second exactly when none is at or after it. Then \<open>needsSmartCut\<close> first queries
  window 10; it queries once more, with window 60, if and only if the first query returned
  a window with no keyframe at the desired time and none at or after it; there is no
  further query; and it fails with the user-facing error if and only if the second query
  was made and returned a window with no keyframe at or after the desired time either.
  A query that itself rejects ends the call with that rejection, which is not of the
  user-facing kind.
\<close>

theorem needsSmartCut_queries:
  assumes exact: "\<And>ks t. (findKeyframeAtExactTime ks t = None) = (\<forall>k\<in>set ks. \<not> js_eq (time k) t)"
    and nxt: "\<And>ks t. (findNextKeyframe ks t = None) = (\<forall>k\<in>set ks. \<not> js_ge (time k) t)"
    and call: "needsSmartCut readKeyframesAroundTime findKeyframeAtExactTime findNextKeyframe
                i18n_t path desiredCutFrom stream = (queries, result)"
  shows "(queries = [Fin 10] \<or> queries = [Fin 10, Fin 60]) \<and>
         ((queries = [Fin 10, Fin 60]) =
            (\<exists>ks. readKeyframesAroundTime path (index stream) desiredCutFrom (Fin 10) = Inr ks \<and>
                  (\<forall>k\<in>set ks. \<not> js_eq (time k) desiredCutFrom) \<and>
                  (\<forall>k\<in>set ks. \<not> js_ge (time k) desiredCutFrom))) \<and>
         ((\<exists>m. result = Inl (UserFacingError m)) =
            (\<exists>ks ks'.
                readKeyframesAroundTime path (index stream) desiredCutFrom (Fin 10) = Inr ks \<and>
                (\<forall>k\<in>set ks. \<not> js_eq (time k) desiredCutFrom) \<and>
                (\<forall>k\<in>set ks. \<not> js_ge (time k) desiredCutFrom) \<and>
                readKeyframesAroundTime path (index stream) desiredCutFrom (Fin 60) = Inr ks' \<and>
                (\<forall>k\<in>set ks'. \<not> js_ge (time k) desiredCutFrom)))"
proof (cases "readKeyframesAroundTime path (index stream) desiredCutFrom (Fin 10)")
  case (Inl e)
  with call show ?thesis
    by (auto simp: needsSmartCut_def Let_def)
next
  case (Inr ks)
  note first = this
  show ?thesis
  proof (cases "findKeyframeAtExactTime ks desiredCutFrom")
    case (Some k)
    then have "\<not> (\<forall>k\<in>set ks. \<not> js_eq (time k) desiredCutFrom)"
      using exact [of ks desiredCutFrom] by simp
    with call first Some show ?thesis
      by (auto simp: needsSmartCut_def Let_def)
  next
    case None
    note no_exact = this
    then have ne: "\<forall>k\<in>set ks. \<not> js_eq (time k) desiredCutFrom"
      using exact [of ks desiredCutFrom] by simp
    show ?thesis
    proof (cases "findNextKeyframe ks desiredCutFrom")
      case (Some k)
      then have "\<not> (\<forall>k\<in>set ks. \<not> js_ge (time k) desiredCutFrom)"
        using nxt [of ks desiredCutFrom] by simp
      with call first no_exact Some show ?thesis
        by (auto simp: needsSmartCut_def Let_def)
    next
      case None
      note no_next = this
      then have nn: "\<forall>k\<in>set ks. \<not> js_ge (time k) desiredCutFrom"
        using nxt [of ks desiredCutFrom] by simp
      show ?thesis
      proof (cases "readKeyframesAroundTime path (index stream) desiredCutFrom (Fin 60)")
        case (Inl e)
        with call first no_exact no_next ne nn show ?thesis
          by (auto simp: needsSmartCut_def Let_def)
      next
        case (Inr ks')
        show ?thesis
        proof (cases "findNextKeyframe ks' desiredCutFrom")
          case None
          then have "\<forall>k\<in>set ks'. \<not> js_ge (time k) desiredCutFrom"
            using nxt [of ks' desiredCutFrom] by simp
          with call first no_exact no_next ne nn Inr None show ?thesis
            by (auto simp: needsSmartCut_def Let_def)
        next
          case (Some k)
          then have "\<not> (\<forall>k\<in>set ks'. \<not> js_ge (time k) desiredCutFrom)"
            using nxt [of ks' desiredCutFrom] by simp
          with call first no_exact no_next ne nn Inr Some show ?thesis
            by (auto simp: needsSmartCut_def Let_def)
        qed
      qed
    qed
  qed
qed

theorem needsSmartCut_queries_witness:
  "fst (needsSmartCut (\<lambda>p i t w. Inr [\<lparr>time = Fin 1\<rparr>] :: unit + Frame list)
          findKeyframeAtExactTime_spec findNextKeyframe_spec (\<lambda>m. m) ''in.mp4'' (Fin 5)
          \<lparr>index = 0, codec_type = ''video'', codec_name = Some ''h264'', bit_rate = None,
           time_base = None, disposition = None\<rparr>) = [Fin 10, Fin 60] \<and>
   (\<exists>m. snd (needsSmartCut (\<lambda>p i t w. Inr [\<lparr>time = Fin 1\<rparr>] :: unit + Frame list)
          findKeyframeAtExactTime_spec findNextKeyframe_spec (\<lambda>m. m) ''in.mp4'' (Fin 5)
          \<lparr>index = 0, codec_type = ''video'', codec_name = Some ''h264'', bit_rate = None,
           time_base = None, disposition = None\<rparr>) = Inl (UserFacingError m))"
proof -
  obtain queries result where
    call: "needsSmartCut (\<lambda>p i t w. Inr [\<lparr>time = Fin 1\<rparr>] :: unit + Frame list)
          findKeyframeAtExactTime_spec findNextKeyframe_spec (\<lambda>m. m) ''in.mp4'' (Fin 5)
          \<lparr>index = 0, codec_type = ''video'', codec_name = Some ''h264'', bit_rate = None,
           time_base = None, disposition = None\<rparr> = (queries, result)"
    by (rule prod.exhaust)
  from needsSmartCut_queries
    [OF findKeyframeAtExactTime_spec_None findNextKeyframe_spec_None call]
  have "queries = [Fin 10, Fin 60] \<and> (\<exists>m. result = Inl (UserFacingError m))"
    by (simp add: js_eq_def)
  with call show ?thesis
    by simp
qed

end
